theory Spec2Isabelle
  imports Complex_Main
begin

section \<open>Data model\<close>

text \<open>
  A note is the dictionary \<open>{"midi", "start", "end"}\<close> that every stage of the melody
  pipeline exchanges. Pitches are Python integers; times are Python floats, modelled here
  as real numbers (exact arithmetic).
\<close>

record melody_note =
  midi :: int
  start :: real
  end_time :: real

datatype py_error = ValueError string | ZeroDivisionError

section \<open>music\_theory.py\<close>

definition SCALES :: "(string \<times> int list) list" where
  "SCALES =
    [(''major'', [0, 2, 4, 5, 7, 9, 11]),
     (''minor'', [0, 2, 3, 5, 7, 8, 10]),
     (''harmonic_minor'', [0, 2, 3, 5, 7, 8, 11]),
     (''melodic_minor'', [0, 2, 3, 5, 7, 9, 11]),
     (''dorian'', [0, 2, 3, 5, 7, 9, 10]),
     (''phrygian'', [0, 1, 3, 5, 7, 8, 10]),
     (''lydian'', [0, 2, 4, 6, 7, 9, 11]),
     (''mixolydian'', [0, 2, 4, 5, 7, 9, 10]),
     (''locrian'', [0, 1, 3, 5, 6, 8, 10]),
     (''major_pentatonic'', [0, 2, 4, 7, 9]),
     (''minor_pentatonic'', [0, 3, 5, 7, 10]),
     (''blues'', [0, 3, 5, 6, 7, 10]),
     (''major_blues'', [0, 2, 3, 4, 7, 9]),
     (''afrobeat'', [0, 2, 3, 5, 7, 9, 10]),
     (''afro_pentatonic'', [0, 2, 5, 7, 10]),
     (''trap'', [0, 2, 3, 5, 7, 8, 11]),
     (''trap_pentatonic'', [0, 3, 5, 7, 10]),
     (''arabic'', [0, 1, 4, 5, 7, 8, 11]),
     (''japanese'', [0, 1, 5, 7, 8]),
     (''hungarian_minor'', [0, 2, 3, 6, 7, 8, 11]),
     (''spanish'', [0, 1, 4, 5, 7, 8, 10])]"

definition NOTE_NAMES :: "string list" where
  "NOTE_NAMES = [''C'', ''C#'', ''D'', ''D#'', ''E'', ''F'', ''F#'', ''G'', ''G#'', ''A'', ''A#'', ''B'']"

text \<open>\<open>list.index(x)\<close>: position of the first occurrence (only called on members).\<close>

fun index_of :: "'a list \<Rightarrow> 'a \<Rightarrow> nat" where
  "index_of [] x = 0"
| "index_of (y # ys) x = (if y = x then 0 else Suc (index_of ys x))"

text \<open>
  Python's \<open>min(xs, key=f)\<close> on a non-empty list: the first element whose key is
  minimal. The accumulator is the best element seen so far.
\<close>

fun min_by_from :: "('a \<Rightarrow> int) \<Rightarrow> 'a \<Rightarrow> 'a list \<Rightarrow> 'a" where
  "min_by_from f best [] = best"
| "min_by_from f best (x # xs) = min_by_from f (if f x < f best then x else best) xs"

definition root_number :: "string \<Rightarrow> nat" where
  "root_number root_name = index_of NOTE_NAMES (if root_name \<in> set NOTE_NAMES then root_name else ''C'')"

definition scale_lookup :: "string \<Rightarrow> int list" where
  "scale_lookup scale_name =
     (case map_of SCALES scale_name of
        Some ivs \<Rightarrow> ivs
      | None \<Rightarrow> (case map_of SCALES ''minor'' of Some ivs \<Rightarrow> ivs | None \<Rightarrow> []))"

definition quantize_to_scale :: "int \<Rightarrow> string \<Rightarrow> string \<Rightarrow> int" where
  "quantize_to_scale midi_note root_name scale_name =
     (let root_num = int (root_number root_name);
          scale_intervals = scale_lookup scale_name;
          octave = midi_note div 12;
          pitch_class = midi_note mod 12;
          relative_pitch = (pitch_class - root_num) mod 12;
          closest = min_by_from (\<lambda>d. \<bar>d - relative_pitch\<bar>) (hd scale_intervals) (tl scale_intervals);
          quantized_pitch = (root_num + closest) mod 12
      in octave * 12 + quantized_pitch)"

section \<open>Python and NumPy primitives\<close>

text \<open>\<open>int(x)\<close> on a float truncates toward zero.\<close>

definition py_int :: "real \<Rightarrow> int" where
  "py_int x = (if x < 0 then \<lceil>x\<rceil> else \<lfloor>x\<rfloor>)"

text \<open>
  \<open>round(x)\<close> on a float rounds to the nearest integer, ties to the even neighbour.
\<close>

definition py_round :: "real \<Rightarrow> int" where
  "py_round x =
     (let f = \<lfloor>x\<rfloor>; d = x - of_int f
      in if d < 1 / 2 then f
         else if 1 / 2 < d then f + 1
         else if even f then f else f + 1)"

text \<open>
  The process-wide NumPy generator is a sequence of numbers in \<open>[0, 1)\<close>; the state
  threaded through the code is the index of the next number. \<open>random()\<close> returns the
  next number, \<open>uniform(a, b)\<close> scales it, \<open>choice(xs)\<close> picks the element it selects.
\<close>

type_synonym rng = "nat \<Rightarrow> real"

definition np_random :: "rng \<Rightarrow> nat \<Rightarrow> real \<times> nat" where
  "np_random g k = (g k, Suc k)"

definition np_uniform :: "rng \<Rightarrow> real \<Rightarrow> real \<Rightarrow> nat \<Rightarrow> real \<times> nat" where
  "np_uniform g a b k = (a + (b - a) * g k, Suc k)"

definition np_choice :: "rng \<Rightarrow> 'a list \<Rightarrow> nat \<Rightarrow> 'a \<times> nat" where
  "np_choice g xs k = (xs ! (nat \<lfloor>g k * real (length xs)\<rfloor> mod length xs), Suc k)"

text \<open>\<open>max(n["end"] for n in notes)\<close> on a non-empty list.\<close>

definition max_end :: "melody_note list \<Rightarrow> real" where
  "max_end notes = fold max (map end_time (tl notes)) (end_time (hd notes))"

section \<open>melody\_enhancer.py\<close>

subsection \<open>smooth\_melody\<close>

text \<open>The loop over \<open>range(1, len(notes))\<close>; \<open>smoothed\<close> is the list built so far.\<close>

fun smooth_loop ::
  "real \<Rightarrow> string \<Rightarrow> string \<Rightarrow> melody_note list \<Rightarrow> melody_note list \<Rightarrow> melody_note list" where
  "smooth_loop intensity root_name scale_name smoothed [] = smoothed"
| "smooth_loop intensity root_name scale_name smoothed (n # ns) =
     (let prev_midi = midi (last smoothed);
          curr_midi = midi n;
          interval = curr_midi - prev_midi;
          new_midi =
            (if \<bar>interval\<bar> > 5 then
               (let target_midi = prev_midi + sgn interval * min \<bar>interval\<bar> 3;
                    blended = py_int (of_int curr_midi * (1 - intensity) + of_int target_midi * intensity)
                in quantize_to_scale blended root_name scale_name)
             else curr_midi)
      in smooth_loop intensity root_name scale_name
           (smoothed @ [\<lparr>midi = new_midi, start = start n, end_time = end_time n\<rparr>]) ns)"

definition smooth_melody ::
  "melody_note list \<Rightarrow> real \<Rightarrow> string \<Rightarrow> string \<Rightarrow> melody_note list" where
  "smooth_melody notes intensity root_name scale_name =
     (if length notes < 2 then notes
      else smooth_loop intensity root_name scale_name [hd notes] (tl notes))"

subsection \<open>afro\_vibe\_melody\<close>

text \<open>
  The loop over \<open>enumerate(notes)\<close>: \<open>i\<close> is the index of the head of the remaining
  notes, so \<open>notes[i + 1]\<close> is the head of the rest and \<open>i < len(notes) - 1\<close> holds when
  the rest is non-empty. The generator is consulted only when the gap test passes.
\<close>

fun afro_loop ::
  "rng \<Rightarrow> real \<Rightarrow> nat \<Rightarrow> melody_note list \<Rightarrow> melody_note list \<Rightarrow> nat \<Rightarrow> melody_note list \<times> nat" where
  "afro_loop g intensity i [] afro_notes k = (afro_notes, k)"
| "afro_loop g intensity i (n # rest) afro_notes k =
     (let new_note =
            (if i mod 2 = 1 \<and> intensity > 3 / 10 then
               (let beat_duration = 1 / 2;
                    grid_size = beat_duration / 4;
                    offset = grid_size * (3 / 10) * intensity
                in n\<lparr>start := start n + offset, end_time := end_time n + offset\<rparr>)
             else n)
      in if intensity > 6 / 10 \<and> rest \<noteq> [] then
           (let gap = start (hd rest) - end_time n
            in if gap > 2 / 10 then
                 (let (u, k') = np_random g k
                  in if u < 3 / 10 then
                       (let repeat_duration = min (1 / 10) (gap * (4 / 10));
                            repeat_note = \<lparr>midi = midi n,
                                           start = end_time n + gap * (3 / 10),
                                           end_time = end_time n + gap * (3 / 10) + repeat_duration\<rparr>
                        in afro_loop g intensity (Suc i) rest (afro_notes @ [new_note, repeat_note]) k')
                     else afro_loop g intensity (Suc i) rest (afro_notes @ [new_note]) k')
               else afro_loop g intensity (Suc i) rest (afro_notes @ [new_note]) k)
         else afro_loop g intensity (Suc i) rest (afro_notes @ [new_note]) k)"

definition afro_vibe_melody ::
  "rng \<Rightarrow> melody_note list \<Rightarrow> real \<Rightarrow> nat \<Rightarrow> melody_note list \<times> nat" where
  "afro_vibe_melody g notes intensity k =
     (let (afro_notes, k') = afro_loop g intensity 0 notes [] k
      in (sort_key start afro_notes, k'))"

subsection \<open>extend\_melody\_duration\<close>

text \<open>The inner \<open>for note in notes\<close> loop: one time-shifted, varied copy of the melody.\<close>

fun vary_copy ::
  "rng \<Rightarrow> real \<Rightarrow> melody_note list \<Rightarrow> melody_note list \<Rightarrow> nat \<Rightarrow> melody_note list \<times> nat" where
  "vary_copy g offset [] extended k = (extended, k)"
| "vary_copy g offset (n # ns) extended k =
     (let shifted = n\<lparr>start := start n + offset, end_time := end_time n + offset\<rparr>;
          (u, k1) = np_random g k
      in if u < 2 / 10 then
           (let (variation, k2) = np_choice g [12, - 12, 7, - 7, 0 :: int] k1;
                new_note = shifted\<lparr>midi := max 36 (min 96 (midi n + variation))\<rparr>
            in vary_copy g offset ns (extended @ [new_note]) k2)
         else vary_copy g offset ns (extended @ [shifted]) k1)"

text \<open>
  The \<open>while offset < min_duration\<close> loop. It does not end when the melody's duration
  is not positive, so the result is optional: \<open>None\<close> is a run that never returns.
\<close>

partial_function (option) extend_loop ::
  "rng \<Rightarrow> melody_note list \<Rightarrow> real \<Rightarrow> real \<Rightarrow> melody_note list \<Rightarrow> real \<Rightarrow> nat
     \<Rightarrow> (melody_note list \<times> nat) option" where
  "extend_loop g notes current_duration min_duration extended offset k =
     (if offset < min_duration then
        (case vary_copy g offset notes extended k of
           (extended', k') \<Rightarrow>
             extend_loop g notes current_duration min_duration extended'
               (offset + current_duration) k')
      else Some (extended, k))"

definition extend_melody_duration ::
  "rng \<Rightarrow> melody_note list \<Rightarrow> real \<Rightarrow> nat \<Rightarrow> (melody_note list \<times> nat) option" where
  "extend_melody_duration g notes min_duration k =
     (if notes = [] then Some ([], k)
      else
        (let current_duration = max_end notes
         in if current_duration \<ge> min_duration then Some (notes, k)
            else
              (case extend_loop g notes current_duration min_duration notes current_duration k of
                 None \<Rightarrow> None
               | Some (extended, k') \<Rightarrow>
                   Some (sort_key start (filter (\<lambda>n. start n < min_duration) extended), k'))))"

section \<open>Properties of the scale quantizer\<close>

lemma min_by_from_mem: "min_by_from f b xs \<in> set (b # xs)"
  by (induction xs arbitrary: b) auto

lemma SCALES_wf: "list_all (\<lambda>(n, ivs). ivs \<noteq> [] \<and> list_all (\<lambda>d. 0 \<le> d \<and> d < 12) ivs) SCALES"
  unfolding SCALES_def by simp

lemma minor_present: "map_of SCALES ''minor'' = Some [0, 2, 3, 5, 7, 8, 10]"
  unfolding SCALES_def by simp

lemma scale_lookup_cases:
  "scale_lookup s \<in> snd ` set SCALES"
proof (cases "map_of SCALES s")
  case None
  have "(''minor'', [0, 2, 3, 5, 7, 8, 10]) \<in> set SCALES" using minor_present by (rule map_of_SomeD)
  then show ?thesis using None
    by (force simp add: scale_lookup_def minor_present)
next
  case (Some ivs)
  then have "(s, ivs) \<in> set SCALES" by (rule map_of_SomeD)
  then show ?thesis using Some by (force simp: scale_lookup_def)
qed

lemma scale_lookup_range:
  "scale_lookup s \<noteq> [] \<and> (\<forall>d \<in> set (scale_lookup s). 0 \<le> d \<and> d < 12)"
proof -
  obtain n where "(n, scale_lookup s) \<in> set SCALES" using scale_lookup_cases [of s] by force
  then show ?thesis using SCALES_wf by (auto simp: list_all_iff)
qed

lemma closest_in_scale:
  "min_by_from f (hd (scale_lookup s)) (tl (scale_lookup s)) \<in> set (scale_lookup s)"
proof -
  have ne: "scale_lookup s \<noteq> []" using scale_lookup_range by blast
  have "min_by_from f (hd (scale_lookup s)) (tl (scale_lookup s))
          \<in> set (hd (scale_lookup s) # tl (scale_lookup s))"
    by (rule min_by_from_mem)
  then show ?thesis using ne by simp
qed

lemma quantized_pitch_class:
  fixes r c :: int
  assumes "0 \<le> c" "c < 12"
  shows "(o12 * 12 + (r + c) mod 12 - r) mod 12 = c"
proof -
  have "(o12 * 12 + (r + c) mod 12 - r) mod 12 = ((r + c) mod 12 - r) mod 12"
    by (metis add_diff_eq mod_mult_self4 mult.commute)
  also have "\<dots> = (r + c - r) mod 12"
    by (metis mod_diff_left_eq)
  also have "\<dots> = c" using assms by simp
  finally show ?thesis .
qed

lemma quantize_to_scale_octave: "quantize_to_scale p r s div 12 = p div 12"
  by (simp add: quantize_to_scale_def Let_def)

lemma same_octave_dist: "q div 12 = p div 12 \<Longrightarrow> \<bar>q - p\<bar> \<le> (11::int)"
  by presburger

lemma root_number_B: "root_number ''B'' = 11"
  by (simp add: root_number_def NOTE_NAMES_def)

lemma scale_lookup_minor: "scale_lookup ''minor'' = [0, 2, 3, 5, 7, 8, 10]"
  by (simp add: scale_lookup_def minor_present)

text \<open>
  C1. For every pitch (in particular every MIDI pitch 0..127), every root name and every
  scale name, the quantized pitch minus the root's pitch-class number, taken modulo 12,
  is an interval of the target scale, where unknown root and scale names fall back to
  C and minor.
\<close>

theorem quantize_to_scale_in_scale:
  "(quantize_to_scale p root_name scale_name - int (root_number root_name)) mod 12 \<in> set (scale_lookup scale_name)"
proof -
  define c where "c = min_by_from (\<lambda>d. \<bar>d - (p mod 12 - int (root_number root_name)) mod 12\<bar>)
              (hd (scale_lookup scale_name)) (tl (scale_lookup scale_name))"
  have mem: "c \<in> set (scale_lookup scale_name)" unfolding c_def by (rule closest_in_scale)
  then have "0 \<le> c" "c < 12" using scale_lookup_range [of scale_name] by blast+
  then have "(p div 12 * 12 + (int (root_number root_name) + c) mod 12 - int (root_number root_name)) mod 12 = c"
    by (rule quantized_pitch_class)
  moreover have "quantize_to_scale p root_name scale_name
      = p div 12 * 12 + (int (root_number root_name) + c) mod 12"
    unfolding quantize_to_scale_def Let_def c_def by (rule refl)
  ultimately show ?thesis using mem by (simp only:)
qed

text \<open>
  C9. The quantizer keeps the octave index of its input (result div 12 equals input
  div 12) for every pitch, root and scale, so the result differs from the input by at
  most 11 semitones; that distance is reached, and in the top MIDI octave the result
  can exceed 127: pitch 120 with root B in minor is quantized to 131.
\<close>

theorem quantize_to_scale_same_octave:
  "(\<forall>p root_name scale_name.
      quantize_to_scale p root_name scale_name div 12 = p div 12 \<and>
      \<bar>quantize_to_scale p root_name scale_name - p\<bar> \<le> 11) \<and>
   quantize_to_scale 120 ''B'' ''minor'' = 131"
proof -
  have top: "quantize_to_scale 120 ''B'' ''minor'' = 131"
    unfolding quantize_to_scale_def root_number_B scale_lookup_minor Let_def by simp
  have dist: "\<bar>quantize_to_scale p r s - p\<bar> \<le> 11" for p r s
    by (rule same_octave_dist) (rule quantize_to_scale_octave)
  show ?thesis
    using quantize_to_scale_octave dist top by blast
qed

section \<open>Properties of smooth\_melody\<close>

lemma smooth_loop_times:
  "map start (smooth_loop i r s acc ns) = map start acc @ map start ns \<and>
   map end_time (smooth_loop i r s acc ns) = map end_time acc @ map end_time ns"
proof (induction ns arbitrary: acc)
  case Nil
  show ?case by simp
next
  case (Cons n ns)
  show ?case
    unfolding smooth_loop.simps Let_def
    by (simp only: Cons.IH) simp
qed

text \<open>
  C10. The smooth enhancer returns exactly as many notes as it is given, and the i-th
  output note has the start time and the end time of the i-th input note: the lists of
  start times and of end times are unchanged, so only pitches can differ.
\<close>

theorem smooth_melody_frame:
  "length (smooth_melody notes intensity root_name scale_name) = length notes \<and>
   map start (smooth_melody notes intensity root_name scale_name) = map start notes \<and>
   map end_time (smooth_melody notes intensity root_name scale_name) = map end_time notes"
proof (cases "length notes < 2")
  case True
  then show ?thesis by (simp add: smooth_melody_def)
next
  case False
  then obtain n ns where nts: "notes = n # ns" by (cases "notes") auto
  have eq: "smooth_melody notes intensity root_name scale_name
              = smooth_loop intensity root_name scale_name [n] ns"
    using False by (simp add: smooth_melody_def nts)
  have st: "map start (smooth_loop intensity root_name scale_name [n] ns) = map start notes"
    and en: "map end_time (smooth_loop intensity root_name scale_name [n] ns) = map end_time notes"
    using smooth_loop_times [of intensity root_name scale_name "[n]" ns] by (simp_all add: nts)
  have "length (smooth_loop intensity root_name scale_name [n] ns) = length notes"
    using arg_cong [OF st, of length] by simp
  then show ?thesis using eq st en by simp
qed

section \<open>Properties of afro\_vibe\_melody\<close>

text \<open>What one round of the loop appends first: the note, syncopated when the guard holds.\<close>

lemma afro_loop_step:
  "\<exists>extra k'. afro_loop g intensity i (n # rest) acc k =
      afro_loop g intensity (Suc i) rest
        (acc @ (if i mod 2 = 1 \<and> intensity > 3 / 10
                then n\<lparr>start := start n + 1 / 2 / 4 * (3 / 10) * intensity,
                       end_time := end_time n + 1 / 2 / 4 * (3 / 10) * intensity\<rparr>
                else n) # extra) k'"
proof -
  let ?new = "if i mod 2 = 1 \<and> intensity > 3 / 10
                then n\<lparr>start := start n + 1 / 2 / 4 * (3 / 10) * intensity,
                       end_time := end_time n + 1 / 2 / 4 * (3 / 10) * intensity\<rparr>
                else n"
  let ?rep = "\<lparr>midi = midi n,
                start = end_time n + (start (hd rest) - end_time n) * (3 / 10),
                end_time = end_time n + (start (hd rest) - end_time n) * (3 / 10)
                   + min (1 / 10) ((start (hd rest) - end_time n) * (4 / 10))\<rparr>"
  consider
      (stutter) "afro_loop g intensity i (n # rest) acc k =
                   afro_loop g intensity (Suc i) rest (acc @ [?new, ?rep]) (Suc k)"
    | (drawn) "afro_loop g intensity i (n # rest) acc k =
                   afro_loop g intensity (Suc i) rest (acc @ [?new]) (Suc k)"
    | (plain) "afro_loop g intensity i (n # rest) acc k =
                   afro_loop g intensity (Suc i) rest (acc @ [?new]) k"
    unfolding afro_loop.simps Let_def np_random_def prod.case
    by (cases "intensity > 6 / 10 \<and> rest \<noteq> []";
        cases "start (hd rest) - end_time n > 2 / 10"; cases "g k < 3 / 10") simp_all
  then show ?thesis
  proof cases
    case stutter
    then show ?thesis by (intro exI [of _ "[?rep]"] exI [of _ "Suc k"]) simp
  next
    case drawn
    then show ?thesis by (intro exI [of _ "[]"] exI [of _ "Suc k"]) simp
  next
    case plain
    then show ?thesis by (intro exI [of _ "[]"] exI [of _ k]) simp
  qed
qed

lemma afro_loop_acc: "set acc \<subseteq> set (fst (afro_loop g intensity i ns acc k))"
proof (induction ns arbitrary: acc i k)
  case Nil
  show ?case by simp
next
  case (Cons n ns)
  obtain extra k' new where step:
    "afro_loop g intensity i (n # ns) acc k = afro_loop g intensity (Suc i) ns (acc @ new # extra) k'"
    using afro_loop_step [of g intensity i n ns acc k] by blast
  have "set acc \<subseteq> set (acc @ new # extra)" by auto
  also have "\<dots> \<subseteq> set (fst (afro_loop g intensity (Suc i) ns (acc @ new # extra) k'))"
    by (rule Cons.IH)
  finally show ?case unfolding step .
qed

lemma afro_loop_mem:
  "j < length ns \<Longrightarrow>
   (if (i + j) mod 2 = 1 \<and> intensity > 3 / 10
    then (ns ! j)\<lparr>start := start (ns ! j) + 1 / 2 / 4 * (3 / 10) * intensity,
                  end_time := end_time (ns ! j) + 1 / 2 / 4 * (3 / 10) * intensity\<rparr>
    else ns ! j) \<in> set (fst (afro_loop g intensity i ns acc k))"
proof (induction ns arbitrary: acc i j k)
  case Nil
  then show ?case by simp
next
  case (Cons n ns)
  let ?new = "if i mod 2 = 1 \<and> intensity > 3 / 10
                then n\<lparr>start := start n + 1 / 2 / 4 * (3 / 10) * intensity,
                       end_time := end_time n + 1 / 2 / 4 * (3 / 10) * intensity\<rparr>
                else n"
  obtain extra k' where step:
    "afro_loop g intensity i (n # ns) acc k = afro_loop g intensity (Suc i) ns (acc @ ?new # extra) k'"
    using afro_loop_step [of g intensity i n ns acc k] by blast
  show ?case
  proof (cases j)
    case 0
    have "?new \<in> set (acc @ ?new # extra)" by simp
    then have "?new \<in> set (fst (afro_loop g intensity (Suc i) ns (acc @ ?new # extra) k'))"
      using afro_loop_acc by blast
    then show ?thesis unfolding 0 step by (simp only: nth_Cons_0 add_0_right)
  next
    case (Suc j')
    then have "j' < length ns" using Cons.prems by simp
    from Cons.IH [OF this, of "Suc i" "acc @ ?new # extra" k']
    show ?thesis unfolding Suc step by (simp only: nth_Cons_Suc add_Suc_right add_Suc)
  qed
qed

lemma afro_loop_no_shift:
  "intensity \<le> 3 / 10 \<Longrightarrow> afro_loop g intensity i ns acc k = (acc @ ns, k)"
  by (induction ns arbitrary: acc i k) (simp_all add: Let_def)

lemma afro_vibe_melody_set:
  "set (fst (afro_vibe_melody g notes intensity k)) = set (fst (afro_loop g intensity 0 notes [] k))"
  by (simp add: afro_vibe_melody_def split: prod.splits)

text \<open>
  C7 (as the code has it). The syncopation is guarded by \<open>intensity > 0.3\<close>. Above that
  threshold every odd-indexed input note appears in the output with start and end moved
  forward by 0.3 * intensity * 0.125 s (an offset linear in the intensity) and every
  even-indexed note appears unchanged; at or below the threshold no note is shifted:
  the output is the input, stably sorted by start.
\<close>

theorem afro_vibe_syncopation:
  "(3 / 10 < intensity \<longrightarrow>
      (\<forall>i < length notes.
         (if odd i
          then (notes ! i)\<lparr>start := start (notes ! i) + 3 / 10 * intensity * (1 / 8),
                           end_time := end_time (notes ! i) + 3 / 10 * intensity * (1 / 8)\<rparr>
          else notes ! i) \<in> set (fst (afro_vibe_melody g notes intensity k)))) \<and>
   (intensity \<le> 3 / 10 \<longrightarrow>
      fst (afro_vibe_melody g notes intensity k) = sort_key start notes)"
proof (intro conjI impI allI)
  fix i
  assume hi: "3 / 10 < intensity" and i: "i < length notes"
  have off: "1 / 2 / 4 * (3 / 10) * intensity = 3 / 10 * intensity * (1 / 8)" by simp
  have odd_eq: "odd i \<longleftrightarrow> (0 + i) mod 2 = 1" by presburger
  from afro_loop_mem [OF i, of 0 intensity g "[]" k]
  show "(if odd i
          then (notes ! i)\<lparr>start := start (notes ! i) + 3 / 10 * intensity * (1 / 8),
                           end_time := end_time (notes ! i) + 3 / 10 * intensity * (1 / 8)\<rparr>
          else notes ! i) \<in> set (fst (afro_vibe_melody g notes intensity k))"
    unfolding afro_vibe_melody_set off odd_eq using hi by (simp only: simp_thms)
next
  assume "intensity \<le> 3 / 10"
  then show "fst (afro_vibe_melody g notes intensity k) = sort_key start notes"
    by (simp add: afro_vibe_melody_def afro_loop_no_shift)
qed

theorem afro_vibe_syncopation_witness:
  "\<lparr>midi = 62, start = 1 / 2 + 3 / 10 * (1 / 2) * (1 / 8), end_time = 1 + 3 / 10 * (1 / 2) * (1 / 8)\<rparr>
     \<in> set (fst (afro_vibe_melody (\<lambda>_. 1 / 2)
          [\<lparr>midi = 60, start = 0, end_time = 1 / 2\<rparr>, \<lparr>midi = 62, start = 1 / 2, end_time = 1\<rparr>]
          (1 / 2) 0)) \<and>
   fst (afro_vibe_melody (\<lambda>_. 1 / 2)
          [\<lparr>midi = 60, start = 0, end_time = 1 / 2\<rparr>, \<lparr>midi = 62, start = 1 / 2, end_time = 1\<rparr>]
          (1 / 4) 0)
     = sort_key start [\<lparr>midi = 60, start = 0, end_time = 1 / 2\<rparr>, \<lparr>midi = 62, start = 1 / 2, end_time = 1\<rparr>]"
proof -
  let ?ns = "[\<lparr>midi = 60, start = 0, end_time = 1 / 2\<rparr>, \<lparr>midi = 62, start = 1 / 2, end_time = 1\<rparr>]"
  have a: "\<lparr>midi = 62, start = 1 / 2 + 3 / 10 * (1 / 2) * (1 / 8), end_time = 1 + 3 / 10 * (1 / 2) * (1 / 8)\<rparr>
     \<in> set (fst (afro_vibe_melody (\<lambda>_. 1 / 2) ?ns (1 / 2) 0))"
    using afro_vibe_syncopation [of "1 / 2" ?ns "\<lambda>_. 1 / 2" 0] by (simp add: All_less_Suc)
  have b: "fst (afro_vibe_melody (\<lambda>_. 1 / 2) ?ns (1 / 4) 0) = sort_key start ?ns"
    using afro_vibe_syncopation [of "1 / 4" ?ns "\<lambda>_. 1 / 2" 0] by simp
  from a b show ?thesis by blast
qed

text \<open>
  The claim as written fails below the threshold: at intensity 0.25 the two-note melody
  comes back unchanged, so its odd-indexed note has not moved.
\<close>

theorem afro_vibe_low_intensity_counterexample:
  "fst (afro_vibe_melody (\<lambda>_. 1 / 2)
          [\<lparr>midi = 60, start = 0, end_time = 1 / 2\<rparr>, \<lparr>midi = 62, start = 1 / 2, end_time = 1\<rparr>]
          (1 / 4) 0)
     = [\<lparr>midi = 60, start = 0, end_time = 1 / 2\<rparr>, \<lparr>midi = 62, start = 1 / 2, end_time = 1\<rparr>] \<and>
   start (fst (afro_vibe_melody (\<lambda>_. 1 / 2)
          [\<lparr>midi = 60, start = 0, end_time = 1 / 2\<rparr>, \<lparr>midi = 62, start = 1 / 2, end_time = 1\<rparr>]
          (1 / 4) 0) ! 1)
     \<noteq> 1 / 2 + 3 / 10 * (1 / 4) * (1 / 8)"
  by (simp add: afro_vibe_melody_def afro_loop_no_shift)

end
